theory Spec2Isabelle
  imports Complex_Main "HOL-Library.Product_Lexorder" "HOL-Library.Multiset"
begin

section \<open>Python floats and exceptions\<close>

text \<open>
  A Python float (and a numpy float64 element) is modelled as a real number, one of the
  two infinities, or NaN.  Arithmetic on finite values is exact: rounding, overflow of
  finite values and the sign of zero are not modelled.  The special values follow
  IEEE 754: NaN absorbs every operation and fails every comparison.
\<close>

datatype pyfloat = Fin real | PInf | NInf | NaN

datatype py_error =
    ValueError string
  | KeyError string
  | IndexError
  | ZeroDivisionError
  | LibraryError
  | HTTPException nat

text \<open>Sequencing of steps that may raise: the first exception ends the computation.\<close>

definition ebind :: "'e + 'a \<Rightarrow> ('a \<Rightarrow> 'e + 'b) \<Rightarrow> 'e + 'b" where
  "ebind m f = (case m of Inl e \<Rightarrow> Inl e | Inr a \<Rightarrow> f a)"

fun isfinite :: "pyfloat \<Rightarrow> bool" where
  "isfinite (Fin r) = True"
| "isfinite _ = False"

fun isnan :: "pyfloat \<Rightarrow> bool" where
  "isnan NaN = True"
| "isnan _ = False"

fun fneg :: "pyfloat \<Rightarrow> pyfloat" where
  "fneg (Fin a) = Fin (- a)"
| "fneg PInf = NInf"
| "fneg NInf = PInf"
| "fneg NaN = NaN"

fun fadd :: "pyfloat \<Rightarrow> pyfloat \<Rightarrow> pyfloat" where
  "fadd NaN _ = NaN"
| "fadd _ NaN = NaN"
| "fadd (Fin a) (Fin b) = Fin (a + b)"
| "fadd PInf NInf = NaN"
| "fadd NInf PInf = NaN"
| "fadd PInf _ = PInf"
| "fadd NInf _ = NInf"
| "fadd _ PInf = PInf"
| "fadd _ NInf = NInf"

definition fsub :: "pyfloat \<Rightarrow> pyfloat \<Rightarrow> pyfloat" where
  "fsub a b = fadd a (fneg b)"

text \<open>The sign of a real as an infinity; a zero factor of an infinity gives NaN.\<close>

definition signed_inf :: "real \<Rightarrow> pyfloat" where
  "signed_inf a = (if a = 0 then NaN else if 0 < a then PInf else NInf)"

fun fmul :: "pyfloat \<Rightarrow> pyfloat \<Rightarrow> pyfloat" where
  "fmul NaN _ = NaN"
| "fmul _ NaN = NaN"
| "fmul (Fin a) (Fin b) = Fin (a * b)"
| "fmul (Fin a) PInf = signed_inf a"
| "fmul (Fin a) NInf = signed_inf (- a)"
| "fmul PInf (Fin b) = signed_inf b"
| "fmul NInf (Fin b) = signed_inf (- b)"
| "fmul PInf PInf = PInf"
| "fmul NInf NInf = PInf"
| "fmul PInf NInf = NInf"
| "fmul NInf PInf = NInf"

text \<open>
  numpy's true division: it never raises.  A finite value over zero is an infinity
  (or NaN for 0/0); the zero divisor counts as +0.
\<close>

fun fdiv :: "pyfloat \<Rightarrow> pyfloat \<Rightarrow> pyfloat" where
  "fdiv NaN _ = NaN"
| "fdiv _ NaN = NaN"
| "fdiv (Fin a) (Fin b) = (if b = 0 then signed_inf a else Fin (a / b))"
| "fdiv (Fin a) _ = Fin 0"
| "fdiv PInf (Fin b) = (if 0 \<le> b then PInf else NInf)"
| "fdiv NInf (Fin b) = (if 0 \<le> b then NInf else PInf)"
| "fdiv _ _ = NaN"

text \<open>Division of two Python floats (not arrays) raises on a zero divisor.\<close>

definition py_div :: "pyfloat \<Rightarrow> pyfloat \<Rightarrow> py_error + pyfloat" where
  "py_div a b = (if b = Fin 0 then Inl ZeroDivisionError else Inr (fdiv a b))"

fun fle :: "pyfloat \<Rightarrow> pyfloat \<Rightarrow> bool" where
  "fle NaN _ = False"
| "fle _ NaN = False"
| "fle NInf _ = True"
| "fle _ PInf = True"
| "fle (Fin a) (Fin b) = (a \<le> b)"
| "fle _ _ = False"

definition flt :: "pyfloat \<Rightarrow> pyfloat \<Rightarrow> bool" where
  "flt a b = (fle a b \<and> \<not> fle b a)"

definition fge :: "pyfloat \<Rightarrow> pyfloat \<Rightarrow> bool" where
  "fge a b = fle b a"

fun fabs :: "pyfloat \<Rightarrow> pyfloat" where
  "fabs (Fin a) = Fin \<bar>a\<bar>"
| "fabs NaN = NaN"
| "fabs _ = PInf"

text \<open>\<^verbatim>\<open>np.maximum\<close> propagates NaN.\<close>

definition np_maximum :: "pyfloat \<Rightarrow> pyfloat \<Rightarrow> pyfloat" where
  "np_maximum a b = (if isnan a \<or> isnan b then NaN else if fle a b then b else a)"

text \<open>\<^verbatim>\<open>np.sqrt\<close>: NaN below zero, no exception.\<close>

fun fsqrt :: "pyfloat \<Rightarrow> pyfloat" where
  "fsqrt (Fin a) = (if a < 0 then NaN else Fin (sqrt a))"
| "fsqrt PInf = PInf"
| "fsqrt _ = NaN"

section \<open>numpy array helpers\<close>

text \<open>One-dimensional arrays are lists.  \<^verbatim>\<open>np.diff\<close> of fewer than two elements is empty.\<close>

fun np_diff :: "pyfloat list \<Rightarrow> pyfloat list" where
  "np_diff (a # b # xs) = fsub b a # np_diff (b # xs)"
| "np_diff _ = []"

text \<open>
  An elementwise operation on two arrays broadcasts an array of length one and raises
  ValueError on any other mismatch of lengths.
\<close>

definition np_binop ::
  "('a \<Rightarrow> 'b \<Rightarrow> 'c) \<Rightarrow> 'a list \<Rightarrow> 'b list \<Rightarrow> py_error + 'c list" where
  "np_binop f xs ys =
     (if length xs = length ys then Inr (map2 f xs ys)
      else if length xs = 1 then Inr (map (f (hd xs)) ys)
      else if length ys = 1 then Inr (map (\<lambda>x. f x (hd ys)) xs)
      else Inl (ValueError ''operands could not be broadcast together''))"

text \<open>Indexing by a boolean mask: the mask must be as long as the array.\<close>

definition np_mask :: "'a list \<Rightarrow> bool list \<Rightarrow> 'a list" where
  "np_mask xs msk = map fst (filter snd (zip xs msk))"

definition bool_index :: "'a list \<Rightarrow> bool list \<Rightarrow> py_error + 'a list" where
  "bool_index xs msk =
     (if length msk \<noteq> length xs then Inl IndexError else Inr (np_mask xs msk))"

text \<open>
  numpy's sort order on floats: minus infinity, the finite values, plus infinity, NaN
  last.  \<^verbatim>\<open>np.argsort\<close> is modelled by a stable sort of the indices; numpy's default
  sort leaves the order of equal keys open.
\<close>

fun np_key :: "pyfloat \<Rightarrow> nat \<times> real" where
  "np_key NInf = (0, 0)"
| "np_key (Fin r) = (1, r)"
| "np_key PInf = (2, 0)"
| "np_key NaN = (3, 0)"


text \<open>\<^verbatim>\<open>np.sum\<close> and \<^verbatim>\<open>np.mean\<close>; the mean of an empty array is NaN (0/0).\<close>

definition np_sum :: "pyfloat list \<Rightarrow> pyfloat" where
  "np_sum xs = foldr fadd xs (Fin 0)"

definition np_mean :: "pyfloat list \<Rightarrow> pyfloat" where
  "np_mean xs = fdiv (np_sum xs) (Fin (real (length xs)))"

text \<open>
  \<^verbatim>\<open>np.linspace(start, stop, num)\<close> with the endpoint included: a negative count
  raises; the samples are \<open>i * step + start\<close> and the last one is set to \<open>stop\<close>.
\<close>

definition linspace :: "pyfloat \<Rightarrow> pyfloat \<Rightarrow> int \<Rightarrow> py_error + pyfloat list" where
  "linspace start stop num =
     (if num < 0 then Inl (ValueError ''Number of samples must be non-negative'')
      else
        let n = nat num; delta = fsub stop start in
        if n \<le> 1 then Inr (map (\<lambda>i. fadd (fmul (Fin (real i)) delta) start) [0..<n])
        else
          let dv = Fin (real (n - 1)); step = fdiv delta dv in
          Inr (map (\<lambda>i. fadd (if step = Fin 0 then fmul (fdiv (Fin (real i)) dv) delta
                                else fmul (Fin (real i)) step) start) [0..<n - 1]
               @ [stop]))"

section \<open>Half-cell curves and the pristine cell (\<^verbatim>\<open>ocv_pristine.py\<close>)\<close>

text \<open>
  The PCHIP interpolant is scipy's; the curve carries it as a function applied to each
  element of a query array.
\<close>

record HalfCellCurve =
  sol :: "pyfloat list"
  ocv_table :: "pyfloat list"
  interp_extrapolate :: "pyfloat \<Rightarrow> pyfloat"
  sol_min :: pyfloat
  sol_max :: pyfloat

definition eval_ocv :: "HalfCellCurve \<Rightarrow> pyfloat list \<Rightarrow> bool \<Rightarrow> pyfloat list" where
  "eval_ocv c sol_query allow_extrapolation =
     (let y = map (interp_extrapolate c) sol_query in
      if allow_extrapolation then y
      else
        let msk = map (\<lambda>q. fge q (sol_min c) \<and> fle q (sol_max c)) sol_query in
        map2 (\<lambda>m v. if m then v else NaN) msk y)"


text \<open>
  The endpoints dictionary always holds the four keys below:
  \<^verbatim>\<open>build_pristine_cell_from_csv\<close> reads all four while it builds the cell, so it is a
  record here.  The derived pristine grid \<^verbatim>\<open>ocv_cell\<close> is the field \<open>ocv_cell_grid\<close>.
\<close>

record Endpoints =
  sol_nmc_eoc :: pyfloat
  sol_nmc_eod :: pyfloat
  sol_gra_eoc :: pyfloat
  sol_gra_eod :: pyfloat

record PristineCell =
  profile_id :: string
  nmc :: HalfCellCurve
  gra :: HalfCellCurve
  endpoints :: Endpoints
  x_grid :: "pyfloat list"
  ocv_nmc :: "pyfloat list"
  ocv_gra :: "pyfloat list"
  ocv_cell_grid :: "pyfloat list"
  v_max :: pyfloat
  v_min :: pyfloat

definition sol_nmc_from_x :: "PristineCell \<Rightarrow> pyfloat list \<Rightarrow> pyfloat list" where
  "sol_nmc_from_x p x =
     (let eoc = sol_nmc_eoc (endpoints p); eod = sol_nmc_eod (endpoints p) in
      map (\<lambda>xi. fadd eoc (fmul xi (fsub eod eoc))) x)"

definition sol_gra_from_x :: "PristineCell \<Rightarrow> pyfloat list \<Rightarrow> pyfloat list" where
  "sol_gra_from_x p x =
     (let eoc = sol_gra_eoc (endpoints p); eod = sol_gra_eod (endpoints p) in
      map (\<lambda>xi. fadd eoc (fmul xi (fsub eod eoc))) x)"

definition ocv_nmc_from_x :: "PristineCell \<Rightarrow> pyfloat list \<Rightarrow> bool \<Rightarrow> pyfloat list" where
  "ocv_nmc_from_x p x allow_extrapolation =
     eval_ocv (nmc p) (sol_nmc_from_x p x) allow_extrapolation"

definition ocv_gra_from_x :: "PristineCell \<Rightarrow> pyfloat list \<Rightarrow> bool \<Rightarrow> pyfloat list" where
  "ocv_gra_from_x p x allow_extrapolation =
     eval_ocv (gra p) (sol_gra_from_x p x) allow_extrapolation"

section \<open>The degraded curve (\<^verbatim>\<open>ocv_degraded.py\<close>)\<close>

record DegradedOcvRaw =
  lli :: pyfloat
  lam_pe :: pyfloat
  lam_ne :: pyfloat
  delta_x_eoc :: pyfloat
  delta_x_eod :: pyfloat
  x_cell_eoc :: pyfloat
  x_cell_eod :: pyfloat
  cell_capacity :: pyfloat
  x_pe_eoc :: pyfloat
  x_pe_eod :: pyfloat
  x_ne_eoc :: pyfloat
  x_ne_eod :: pyfloat
  capacity_norm :: "pyfloat list"
  ocv_cell :: "pyfloat list"

text \<open>
  \<^verbatim>\<open>scipy.optimize.fsolve\<close> is a parameter: given the residual function, the start,
  \<^verbatim>\<open>xtol\<close> and \<^verbatim>\<open>maxfev\<close> it raises or returns the final iterate with the flag
  \<^verbatim>\<open>ier\<close>.  scipy sets \<^verbatim>\<open>ier\<close> to 1 when a solution was found; every other value
  (2 to 5: evaluation cap reached, tolerance too small, no progress) reports that the
  iteration did not converge.
\<close>

type_synonym residual = "pyfloat \<times> pyfloat \<Rightarrow> py_error + pyfloat \<times> pyfloat"

type_synonym root_finder =
  "residual \<Rightarrow> pyfloat \<times> pyfloat \<Rightarrow> real \<Rightarrow> int \<Rightarrow> py_error + (pyfloat \<times> pyfloat) \<times> int"

definition converged :: "int \<Rightarrow> bool" where
  "converged ier = (ier = 1)"

definition ocv_pe_from_x :: "PristineCell \<Rightarrow> pyfloat \<Rightarrow> pyfloat" where
  "ocv_pe_from_x p x = hd (ocv_nmc_from_x p [x] True)"

definition ocv_ne_from_x :: "PristineCell \<Rightarrow> pyfloat \<Rightarrow> pyfloat" where
  "ocv_ne_from_x p x = hd (ocv_gra_from_x p [x] True)"

definition equations ::
  "PristineCell \<Rightarrow> pyfloat \<Rightarrow> pyfloat \<Rightarrow> pyfloat \<Rightarrow> residual" where
  "equations p LLI LAM_PE LAM_NE vars =
     (let dx_eoc = fst vars; dx_eod = snd vars in
      ebind (py_div dx_eoc (fsub (Fin 1) LAM_PE)) (\<lambda>a1.
      ebind (py_div (fsub (fadd dx_eoc LLI) LAM_NE) (fsub (Fin 1) LAM_NE)) (\<lambda>a2.
      ebind (py_div (fsub (fadd dx_eod (Fin 1)) LLI) (fsub (Fin 1) LAM_PE)) (\<lambda>a3.
      ebind (py_div (fsub (fadd dx_eod (Fin 1)) LAM_NE) (fsub (Fin 1) LAM_NE)) (\<lambda>a4.
        Inr (fadd (fsub (v_max p) (ocv_pe_from_x p a1)) (ocv_ne_from_x p a2),
             fadd (fsub (v_min p) (ocv_pe_from_x p a3)) (ocv_ne_from_x p a4)))))))"

definition calculate_degraded_ocv_raw ::
  "root_finder \<Rightarrow> PristineCell \<Rightarrow> pyfloat \<Rightarrow> pyfloat \<Rightarrow> pyfloat \<Rightarrow> int
     \<Rightarrow> py_error + DegradedOcvRaw option" where
  "calculate_degraded_ocv_raw fsolve p LLI LAM_PE LAM_NE num_points =
     (if fle (fsub (Fin 1) LAM_PE) (Fin 0) \<or> fle (fsub (Fin 1) LAM_NE) (Fin 0) then Inr None
      else
        case fsolve (equations p LLI LAM_PE LAM_NE) (Fin 0, Fin 0) (1 / 10 ^ 10) 2000 of
          Inl e \<Rightarrow> Inr None
        | Inr (s, ier) \<Rightarrow>
            if ier \<le> 0 then Inr None
            else
              let dxc = fst s; dxd = snd s in
              ebind (py_div dxc (fsub (Fin 1) LAM_PE)) (\<lambda>xpc.
              ebind (py_div (fsub (fadd dxd (Fin 1)) LLI) (fsub (Fin 1) LAM_PE)) (\<lambda>xpd.
              ebind (py_div (fsub (fadd dxc LLI) LAM_NE) (fsub (Fin 1) LAM_NE)) (\<lambda>xnc.
              ebind (py_div (fsub (fadd dxd (Fin 1)) LAM_NE) (fsub (Fin 1) LAM_NE)) (\<lambda>xnd.
                let xcc = dxc; xcd = fadd (fsub (Fin 1) LLI) dxd in
                if \<not> isfinite xcc \<or> \<not> isfinite xcd \<or> fle xcd xcc then Inr None
                else
                  ebind (linspace xcc xcd num_points) (\<lambda>cap_norm.
                    let frac = map (\<lambda>c. fdiv (fsub c xcc) (fsub xcd xcc)) cap_norm;
                        x_pe = map (\<lambda>f. fadd xpc (fmul f (fsub xpd xpc))) frac;
                        x_ne = map (\<lambda>f. fadd xnc (fmul f (fsub xnd xnc))) frac;
                        ocv_pe = ocv_nmc_from_x p x_pe True;
                        ocv_ne = ocv_gra_from_x p x_ne True
                    in Inr (Some \<lparr>lli = LLI, lam_pe = LAM_PE, lam_ne = LAM_NE,
                          delta_x_eoc = dxc, delta_x_eod = dxd,
                          x_cell_eoc = xcc, x_cell_eod = xcd,
                          cell_capacity = fsub xcd xcc,
                          x_pe_eoc = xpc, x_pe_eod = xpd, x_ne_eoc = xnc, x_ne_eod = xnd,
                          capacity_norm = cap_norm,
                          ocv_cell = map2 fsub ocv_pe ocv_ne\<rparr>)))))))"

section \<open>Measured series\<close>

record MeasuredOcv =
  capacity :: "pyfloat list"
  ocv :: "pyfloat list"




definition gradient_mask ::
  "pyfloat list \<Rightarrow> pyfloat list \<Rightarrow> pyfloat \<Rightarrow> py_error + bool list" where
  "gradient_mask cap ocv_a gradient_limit =
     (let soc_diff = map fabs (np_diff (map (\<lambda>c. fmul c (Fin 100)) cap));
          ocv_diff = map fabs (np_diff ocv_a);
          denom = map (np_maximum (Fin (1 / 10 ^ 12))) soc_diff
      in ebind (np_binop fdiv ocv_diff denom) (\<lambda>grad.
           Inr (map (\<lambda>g. flt g gradient_limit) grad @ [False])))"

section \<open>The estimator\<close>

text \<open>
  \<^verbatim>\<open>scipy.interpolate.interp1d(x, y, kind='linear', fill_value='extrapolate',
  assume_sorted=True)\<close> evaluated on an array: construction raises when the arrays differ
  in length or are empty; a query is placed by \<^verbatim>\<open>searchsorted\<close> (for sorted \<open>x\<close>, the
  number of entries below the query), the index is clipped to \<open>1 .. n - 1\<close>, and the
  value lies on the line through the two neighbours.  With a single entry both
  neighbours are that entry.
\<close>

definition searchsorted :: "pyfloat list \<Rightarrow> pyfloat \<Rightarrow> nat" where
  "searchsorted xs v = length (takeWhile (\<lambda>x. np_key x < np_key v) xs)"

definition interp_at :: "pyfloat list \<Rightarrow> pyfloat list \<Rightarrow> pyfloat \<Rightarrow> pyfloat" where
  "interp_at xs ys v =
     (let n = length xs;
          hi = min (max (searchsorted xs v) 1) (n - 1);
          lo = (if hi = 0 then n - 1 else hi - 1);
          slope = fdiv (fsub (ys ! hi) (ys ! lo)) (fsub (xs ! hi) (xs ! lo))
      in fadd (fmul slope (fsub v (xs ! lo))) (ys ! lo))"

definition interp1d_linear ::
  "pyfloat list \<Rightarrow> pyfloat list \<Rightarrow> pyfloat list \<Rightarrow> py_error + pyfloat list" where
  "interp1d_linear xs ys x_new =
     (if length xs \<noteq> length ys then Inl (ValueError ''x and y arrays must be equal in length'')
      else if length xs < 1 then Inl (ValueError ''x and y arrays must have at least 1 entries'')
      else Inr (map (interp_at xs ys) x_new))"

type_synonym theta = "pyfloat \<times> pyfloat \<times> pyfloat"

definition penalty :: pyfloat where
  "penalty = Fin (10 ^ 6)"

definition objective ::
  "root_finder \<Rightarrow> PristineCell \<Rightarrow> pyfloat list \<Rightarrow> pyfloat list \<Rightarrow> bool list \<Rightarrow> int
     \<Rightarrow> theta \<Rightarrow> py_error + pyfloat" where
  "objective fsolve p cap ocv_a mask_flat num_points th =
     (case th of (LLI, LAM_PE, LAM_NE) \<Rightarrow>
      ebind (calculate_degraded_ocv_raw fsolve p LLI LAM_PE LAM_NE num_points) (\<lambda>degraded.
        case degraded of
          None \<Rightarrow> Inr penalty
        | Some d \<Rightarrow>
            if \<not> isfinite (cell_capacity d) \<or> fle (cell_capacity d) (Fin 0) then Inr penalty
            else
              let pred_capacity = map (\<lambda>c. fsub c (x_cell_eoc d)) (capacity_norm d);
                  pred_ocv = ocv_cell d
              in
                if length pred_capacity < 2 then Inr penalty
                else
                  case interp1d_linear pred_capacity pred_ocv cap of
                    Inl e \<Rightarrow> Inr penalty
                  | Inr pred_at_meas \<Rightarrow>
                      ebind (bool_index pred_at_meas mask_flat) (\<lambda>pm.
                      ebind (bool_index ocv_a mask_flat) (\<lambda>om.
                      ebind (np_binop fsub pm om) (\<lambda>err.
                        let rmse = fsqrt (np_mean (map (\<lambda>e. fmul e e) err)) in
                        if \<not> isfinite rmse then Inr penalty else Inr rmse)))))"

text \<open>
  \<^verbatim>\<open>scipy.optimize.minimize\<close> (SLSQP, box bounds [0, 1], \<^verbatim>\<open>ftol = 1e-12\<close>) is a
  parameter: given the objective, the start and \<^verbatim>\<open>maxiter\<close> it raises or returns a result
  with the fields \<^verbatim>\<open>fun\<close> (possibly \<^verbatim>\<open>None\<close>) and \<^verbatim>\<open>x\<close>.
\<close>

record OptimizeResult =
  res_fun :: "pyfloat option"
  res_x :: theta

type_synonym minimizer =
  "(theta \<Rightarrow> py_error + pyfloat) \<Rightarrow> theta \<Rightarrow> int \<Rightarrow> py_error + OptimizeResult"

text \<open>
  The generator: \<^verbatim>\<open>default_rng\<close> rejects a negative seed and \<^verbatim>\<open>rng.random((n, 3))\<close> a
  negative \<open>n\<close>; the parameter \<open>rng_row seed i\<close> is row \<open>i\<close> of the drawn matrix.
\<close>

definition draw_starts :: "(int option \<Rightarrow> nat \<Rightarrow> theta) \<Rightarrow> int option \<Rightarrow> int \<Rightarrow> py_error + theta list" where
  "draw_starts rng_row seed num_starts =
     (if (case seed of None \<Rightarrow> False | Some sd \<Rightarrow> sd < 0)
      then Inl (ValueError ''expected non-negative integer'')
      else if num_starts < 0 then Inl (ValueError ''negative dimensions are not allowed'')
      else Inr (map (rng_row seed) [0..<nat num_starts]))"

record DiagnosticsEstimate =
  theta :: theta
  rmse_v :: pyfloat
  mask_flat :: "bool list"
  predicted_ocv_at_measured :: "pyfloat list"
  starts_tried :: int
  starts_success :: int

text \<open>
  One pass of the multistart loop over a start \<open>x0\<close>; the state is
  \<open>(best_x, best_rmse, starts_success)\<close>.
\<close>

definition multistart_step ::
  "minimizer \<Rightarrow> (theta \<Rightarrow> py_error + pyfloat) \<Rightarrow> int
     \<Rightarrow> theta option \<times> pyfloat \<times> int \<Rightarrow> theta \<Rightarrow> theta option \<times> pyfloat \<times> int" where
  "multistart_step minimize obj maxiter st x0 =
     (case st of (best_x, best_rmse, succ) \<Rightarrow>
      case minimize obj x0 maxiter of
        Inl e \<Rightarrow> st
      | Inr res \<Rightarrow>
          (case res_fun res of
             None \<Rightarrow> st
           | Some f \<Rightarrow>
               if isfinite f
               then (if flt f best_rmse then (Some (res_x res), f, succ + 1)
                     else (best_x, best_rmse, succ + 1))
               else st))"

definition estimate_diagnostics_multistart ::
  "root_finder \<Rightarrow> (int option \<Rightarrow> nat \<Rightarrow> theta) \<Rightarrow> minimizer \<Rightarrow> PristineCell \<Rightarrow> MeasuredOcv
     \<Rightarrow> int \<Rightarrow> int \<Rightarrow> int option \<Rightarrow> pyfloat \<Rightarrow> int \<Rightarrow> py_error + DiagnosticsEstimate option" where
  "estimate_diagnostics_multistart fsolve rng_row minimize p measured num_points num_starts seed
       gradient_limit maxiter =
     (let cap = capacity measured; ocv_a = ocv measured in
      if length cap < 3 then Inr None
      else
        ebind (gradient_mask cap ocv_a gradient_limit) (\<lambda>mflat.
          if \<not> list_ex (\<lambda>b. b) mflat then Inr None
          else
            ebind (draw_starts rng_row seed num_starts) (\<lambda>starts.
              case foldl (multistart_step minimize
                            (objective fsolve p cap ocv_a mflat num_points) maxiter)
                         (None, PInf, 0) starts of
                (best_x, best_rmse, succ) \<Rightarrow>
                  (case best_x of
                     None \<Rightarrow> Inr None
                   | Some bx \<Rightarrow>
                       if \<not> isfinite best_rmse then Inr None
                       else
                         case bx of (b0, b1, b2) \<Rightarrow>
                         ebind (calculate_degraded_ocv_raw fsolve p b0 b1 b2 num_points)
                           (\<lambda>degraded_best.
                             case degraded_best of
                               None \<Rightarrow> Inr None
                             | Some d \<Rightarrow>
                                 ebind (interp1d_linear
                                          (map (\<lambda>c. fsub c (x_cell_eoc d)) (capacity_norm d))
                                          (ocv_cell d) cap)
                                   (\<lambda>pred_at_meas.
                                     Inr (Some \<lparr>theta = bx, rmse_v = best_rmse,
                                            mask_flat = mflat,
                                            predicted_ocv_at_measured = pred_at_meas,
                                            starts_tried = num_starts,
                                            starts_success = succ\<rparr>)))))))"

section \<open>The endpoint \<^verbatim>\<open>/diagnostics/estimate\<close> (\<^verbatim>\<open>main.py\<close>)\<close>



section \<open>Notions used in the statements\<close>


text \<open>
  The gradient between the measured points \<open>i\<close> and \<open>i + 1\<close>:
  \<open>|\<Delta>ocv| / max(|100 \<cdot> \<Delta>capacity|, 1e-12)\<close>.
\<close>

definition gradient_at :: "pyfloat list \<Rightarrow> pyfloat list \<Rightarrow> nat \<Rightarrow> pyfloat" where
  "gradient_at cap ocv_a i =
     fdiv (fabs (fsub (ocv_a ! Suc i) (ocv_a ! i)))
          (np_maximum (fabs (fmul (Fin 100) (fsub (cap ! Suc i) (cap ! i)))) (Fin (1 / 10 ^ 12)))"



text \<open>The position at the fraction \<open>fr\<close> of an electrode window, by linear interpolation.\<close>

definition window_position :: "pyfloat \<Rightarrow> pyfloat \<Rightarrow> pyfloat \<Rightarrow> pyfloat" where
  "window_position e_eoc e_eod fr = fadd e_eoc (fmul fr (fsub e_eod e_eoc))"

text \<open>
  The tail of \<^verbatim>\<open>calculate_degraded_ocv_raw\<close> after an accepted root solve, with the
  divisions already known not to raise: the window check and the sampling.
\<close>

definition sample_window ::
  "PristineCell \<Rightarrow> pyfloat \<Rightarrow> pyfloat \<Rightarrow> pyfloat \<Rightarrow> int \<Rightarrow> pyfloat \<times> pyfloat
     \<Rightarrow> py_error + DegradedOcvRaw option" where
  "sample_window p LLI LAM_PE LAM_NE num_points s =
     (let dxc = fst s; dxd = snd s;
          xpc = fdiv dxc (fsub (Fin 1) LAM_PE);
          xpd = fdiv (fsub (fadd dxd (Fin 1)) LLI) (fsub (Fin 1) LAM_PE);
          xnc = fdiv (fsub (fadd dxc LLI) LAM_NE) (fsub (Fin 1) LAM_NE);
          xnd = fdiv (fsub (fadd dxd (Fin 1)) LAM_NE) (fsub (Fin 1) LAM_NE);
          xcd = fadd (fsub (Fin 1) LLI) dxd
      in if \<not> isfinite dxc \<or> \<not> isfinite xcd \<or> fle xcd dxc then Inr None
         else ebind (linspace dxc xcd num_points) (\<lambda>cap_norm.
           let fracs = map (\<lambda>c. fdiv (fsub c dxc) (fsub xcd dxc)) cap_norm in
           Inr (Some \<lparr>lli = LLI, lam_pe = LAM_PE, lam_ne = LAM_NE,
                  delta_x_eoc = dxc, delta_x_eod = dxd, x_cell_eoc = dxc, x_cell_eod = xcd,
                  cell_capacity = fsub xcd dxc,
                  x_pe_eoc = xpc, x_pe_eod = xpd, x_ne_eoc = xnc, x_ne_eod = xnd,
                  capacity_norm = cap_norm,
                  ocv_cell = map (\<lambda>f. fsub (ocv_pe_from_x p (window_position xpc xpd f))
                                         (ocv_ne_from_x p (window_position xnc xnd f))) fracs\<rparr>)))"

text \<open>
  The predicted curve of a degraded result, read at a measured capacity: the samples
  \<open>(capacity_norm - x_cell_eoc, ocv_cell)\<close> joined by straight lines and continued beyond
  both ends.  The RMSE over the flat mask is the root of the mean squared difference
  between the predicted and the measured voltage over the flagged indices.
\<close>

definition predicted_at :: "DegradedOcvRaw \<Rightarrow> pyfloat \<Rightarrow> pyfloat" where
  "predicted_at d c =
     interp_at (map (\<lambda>x. fsub x (x_cell_eoc d)) (capacity_norm d)) (ocv_cell d) c"

definition flat_rmse ::
  "DegradedOcvRaw \<Rightarrow> pyfloat list \<Rightarrow> pyfloat list \<Rightarrow> bool list \<Rightarrow> pyfloat" where
  "flat_rmse d cap ocv_a msk =
     (let flat = filter (\<lambda>i. msk ! i) [0..<length cap];
          sq_err = (\<lambda>i. fmul (fsub (predicted_at d (cap ! i)) (ocv_a ! i))
                            (fsub (predicted_at d (cap ! i)) (ocv_a ! i)))
      in fsqrt (fdiv (np_sum (map sq_err flat)) (Fin (real (length flat)))))"

text \<open>
  The outcome of one start: the objective value and the minimizer's point when the local
  optimization returns a finite value, nothing when it raises, returns no value or a
  value that is not finite.  The successful starts are the outcomes of a list of starts,
  in order.  \<open>best_of S st\<close> says that the loop state \<open>st\<close> counts \<open>S\<close> and holds a pair of
  \<open>S\<close> whose value no other pair of \<open>S\<close> undercuts.
\<close>

definition start_outcome ::
  "minimizer \<Rightarrow> (theta \<Rightarrow> py_error + pyfloat) \<Rightarrow> int \<Rightarrow> theta \<Rightarrow> (pyfloat \<times> theta) option" where
  "start_outcome minimize obj maxiter x0 =
     (case minimize obj x0 maxiter of
        Inl e \<Rightarrow> None
      | Inr res \<Rightarrow>
          (case res_fun res of
             None \<Rightarrow> None
           | Some f \<Rightarrow> if isfinite f then Some (f, res_x res) else None))"

definition successful_starts ::
  "minimizer \<Rightarrow> (theta \<Rightarrow> py_error + pyfloat) \<Rightarrow> int \<Rightarrow> theta list \<Rightarrow> (pyfloat \<times> theta) list" where
  "successful_starts minimize obj maxiter starts =
     List.map_filter (start_outcome minimize obj maxiter) starts"

definition best_of :: "(pyfloat \<times> theta) list \<Rightarrow> theta option \<times> pyfloat \<times> int \<Rightarrow> bool" where
  "best_of S st =
     (snd (snd st) = int (length S) \<and>
      (if S = [] then fst st = None \<and> fst (snd st) = PInf
       else \<exists>x. fst st = Some x \<and> (fst (snd st), x) \<in> set S \<and>
                list_all (\<lambda>r. fle (fst (snd st)) (fst r)) S))"

section \<open>A small cell for concrete evaluation\<close>

text \<open>
  Two-point tables: the positive electrode falls from 4 V to 3 V, the negative one from
  1 V to 0 V, over the lithiation range 0 to 1.  PCHIP through two points is the
  straight line, also beyond the table.  The cell is what
  \<^verbatim>\<open>build_pristine_cell_from_csv\<close> builds from these tables with the endpoints 0 and 1 on
  both electrodes and three grid points.
\<close>

definition pe_curve :: HalfCellCurve where
  "pe_curve = \<lparr>sol = [Fin 0, Fin 1], ocv_table = [Fin 4, Fin 3],
     interp_extrapolate = (\<lambda>s. fsub (Fin 4) s), sol_min = Fin 0, sol_max = Fin 1\<rparr>"

definition ne_curve :: HalfCellCurve where
  "ne_curve = \<lparr>sol = [Fin 0, Fin 1], ocv_table = [Fin 1, Fin 0],
     interp_extrapolate = (\<lambda>s. fsub (Fin 1) s), sol_min = Fin 0, sol_max = Fin 1\<rparr>"

definition example_cell :: PristineCell where
  "example_cell = \<lparr>profile_id = ''linear'', nmc = pe_curve, gra = ne_curve,
     endpoints = \<lparr>sol_nmc_eoc = Fin 0, sol_nmc_eod = Fin 1,
                  sol_gra_eoc = Fin 0, sol_gra_eod = Fin 1\<rparr>,
     x_grid = [Fin 0, Fin (1 / 2), Fin 1],
     ocv_nmc = [Fin 4, Fin (7 / 2), Fin 3],
     ocv_gra = [Fin 1, Fin (1 / 2), Fin 0],
     ocv_cell_grid = [Fin 3, Fin 3, Fin 3],
     v_max = Fin 3, v_min = Fin 3\<rparr>"

text \<open>
  The same electrodes with the negative window ending at 1/2: the cell voltage falls
  from 3 V to 2.5 V.  Below, the degraded curve of this cell at \<open>\<theta> = (0, 0, 0)\<close> on three
  points, and the curve the code returns for the first cell at \<open>\<theta> = (0.5, 0, 0)\<close>.
\<close>

definition sloped_cell :: PristineCell where
  "sloped_cell = \<lparr>profile_id = ''sloped'', nmc = pe_curve, gra = ne_curve,
     endpoints = \<lparr>sol_nmc_eoc = Fin 0, sol_nmc_eod = Fin 1,
                  sol_gra_eoc = Fin 0, sol_gra_eod = Fin (1 / 2)\<rparr>,
     x_grid = [Fin 0, Fin (1 / 2), Fin 1],
     ocv_nmc = [Fin 4, Fin (7 / 2), Fin 3],
     ocv_gra = [Fin 1, Fin (3 / 4), Fin (1 / 2)],
     ocv_cell_grid = [Fin 3, Fin (11 / 4), Fin (5 / 2)],
     v_max = Fin 3, v_min = Fin (5 / 2)\<rparr>"

definition sloped_curve :: DegradedOcvRaw where
  "sloped_curve = \<lparr>lli = Fin 0, lam_pe = Fin 0, lam_ne = Fin 0,
     delta_x_eoc = Fin 0, delta_x_eod = Fin 0, x_cell_eoc = Fin 0, x_cell_eod = Fin 1,
     cell_capacity = Fin 1, x_pe_eoc = Fin 0, x_pe_eod = Fin 1,
     x_ne_eoc = Fin 0, x_ne_eod = Fin 1,
     capacity_norm = [Fin 0, Fin (1 / 2), Fin 1],
     ocv_cell = [Fin 3, Fin (11 / 4), Fin (5 / 2)]\<rparr>"

definition unconverged_curve :: DegradedOcvRaw where
  "unconverged_curve = \<lparr>lli = Fin (1 / 2), lam_pe = Fin 0, lam_ne = Fin 0,
     delta_x_eoc = Fin 0, delta_x_eod = Fin 0, x_cell_eoc = Fin 0, x_cell_eod = Fin (1 / 2),
     cell_capacity = Fin (1 / 2), x_pe_eoc = Fin 0, x_pe_eod = Fin (1 / 2),
     x_ne_eoc = Fin (1 / 2), x_ne_eod = Fin 1,
     capacity_norm = [Fin 0, Fin (1 / 4), Fin (1 / 2)],
     ocv_cell = [Fin (7 / 2), Fin (7 / 2), Fin (7 / 2)]\<rparr>"

text \<open>
  A root finder that performs no accepted step: it hands back its start with the given
  flag.  A generator whose rows are all zero, and a minimizer that evaluates the
  objective at its start and returns it.
\<close>

definition stalled_fsolve :: "int \<Rightarrow> root_finder" where
  "stalled_fsolve ier = (\<lambda>eqs x0 xtol maxfev. Inr (x0, ier))"

definition zero_rows :: "int option \<Rightarrow> nat \<Rightarrow> theta" where
  "zero_rows = (\<lambda>seed i. (Fin 0, Fin 0, Fin 0))"

definition eval_minimize :: minimizer where
  "eval_minimize = (\<lambda>obj x0 maxiter.
     case obj x0 of Inl e \<Rightarrow> Inl e | Inr f \<Rightarrow> Inr \<lparr>res_fun = Some f, res_x = x0\<rparr>)"





text \<open>A measured series 0.3 V below the curve of the sloped cell.\<close>

definition offset_series :: MeasuredOcv where
  "offset_series = \<lparr>capacity = [Fin 0, Fin (1 / 2), Fin 1],
                     ocv = [Fin (27 / 10), Fin (49 / 20), Fin (11 / 5)]\<rparr>"

text \<open>
  A generator whose row \<open>i\<close> is \<open>(i, 0, 0)\<close>, a minimizer that raises unless the start has
  \<open>LLI = 0\<close>, and the estimate of the offset series on the sloped cell with two starts.
\<close>

definition counting_rows :: "int option \<Rightarrow> nat \<Rightarrow> theta" where
  "counting_rows = (\<lambda>seed i. (Fin (real i), Fin 0, Fin 0))"

definition picky_minimize :: minimizer where
  "picky_minimize = (\<lambda>obj x0 maxiter.
     if fst x0 = Fin 0 then eval_minimize obj x0 maxiter else Inl LibraryError)"

definition offset_estimate :: DiagnosticsEstimate where
  "offset_estimate = \<lparr>theta = (Fin 0, Fin 0, Fin 0), rmse_v = Fin (3 / 10),
     mask_flat = [True, True, False],
     predicted_ocv_at_measured = [Fin 3, Fin (11 / 4), Fin (5 / 2)],
     starts_tried = 2, starts_success = 1\<rparr>"

section \<open>Half-cell evaluation without extrapolation\<close>







section \<open>The flat-region mask\<close>

lemma np_diff_length: "length (np_diff xs) = length xs - 1"
  by (induction xs rule: np_diff.induct) simp_all

lemma np_diff_nth: "Suc i < length xs \<Longrightarrow> np_diff xs ! i = fsub (xs ! Suc i) (xs ! i)"
proof (induction xs arbitrary: i rule: np_diff.induct)
  case (1 a b xs)
  then show ?case by (cases i) simp_all
qed simp_all

lemma fsub_scale: "fsub (fmul a (Fin 100)) (fmul b (Fin 100)) = fmul (Fin 100) (fsub a b)"
  by (cases a; cases b) (simp_all add: fsub_def signed_inf_def algebra_simps)

lemma np_maximum_commute: "np_maximum a b = np_maximum b a"
  by (cases a; cases b) (auto simp: np_maximum_def)

lemma grad_elem:
  "np_maximum e (fabs (fsub (fmul d (Fin 100)) (fmul c (Fin 100)))) =
   np_maximum (fabs (fmul (Fin 100) (fsub d c))) e"
  using np_maximum_commute [of e] by (simp add: fsub_scale)

lemma gradient_mask_eq:
  assumes "length ocv_a = length cap"
  shows "gradient_mask cap ocv_a glim =
           Inr (map (\<lambda>i. flt (gradient_at cap ocv_a i) glim) [0..<length cap - 1] @ [False])"
proof -
  let ?od = "map fabs (np_diff ocv_a)"
  let ?dn = "map (np_maximum (Fin (1 / 10 ^ 12)))
               (map fabs (np_diff (map (\<lambda>c. fmul c (Fin 100)) cap)))"
  have len: "length ?od = length ?dn"
    using assms by (simp add: np_diff_length)
  have "map2 fdiv ?od ?dn = map (gradient_at cap ocv_a) [0..<length cap - 1]"
  proof (rule nth_equalityI)
    show "length (map2 fdiv ?od ?dn) = length (map (gradient_at cap ocv_a) [0..<length cap - 1])"
      using assms by (simp add: np_diff_length)
  next
    fix i assume "i < length (map2 fdiv ?od ?dn)"
    then have i: "Suc i < length cap" "Suc i < length ocv_a"
      using assms by (simp_all add: np_diff_length)
    then have j: "i < length (np_diff ocv_a)"
      "i < length (np_diff (map (\<lambda>c. fmul c (Fin 100)) cap))" "i < length cap - 1"
      by (simp_all add: np_diff_length)
    show "map2 fdiv ?od ?dn ! i = map (gradient_at cap ocv_a) [0..<length cap - 1] ! i"
      using i j by (simp add: np_diff_nth gradient_at_def grad_elem)
  qed
  then show ?thesis
    using len by (simp add: gradient_mask_def Let_def np_binop_def ebind_def)
qed



section \<open>Series too short to fit\<close>

text \<open>
  Claim C10.  For a measured series with fewer than three capacity values
  \<^verbatim>\<open>estimate_diagnostics_multistart\<close> returns \<^verbatim>\<open>None\<close>, whatever the root finder, the
  generator, the minimizer and the other arguments are: nothing is drawn, and no
  argument that would make the drawing raise has any effect.
\<close>

theorem short_series_absent:
  assumes "length (capacity measured) < 3"
  shows "estimate_diagnostics_multistart fsolve rng_row minimize p measured num_points
           num_starts seed gradient_limit maxiter = Inr None"
  using assms by (simp add: estimate_diagnostics_multistart_def)

theorem short_series_absent_witness:
  "estimate_diagnostics_multistart (stalled_fsolve 1) zero_rows eval_minimize example_cell
     \<lparr>capacity = [Fin 0, Fin 1], ocv = [Fin 3, Fin 3]\<rparr> 101 (- 1) (Some (- 1)) (Fin (1 / 10)) 200
     = Inr None \<and>
   draw_starts zero_rows (Some (- 1)) (- 1) = Inl (ValueError ''expected non-negative integer'')"
  using short_series_absent [of "\<lparr>capacity = [Fin 0, Fin 1], ocv = [Fin 3, Fin 3]\<rparr>"
      "stalled_fsolve 1" zero_rows eval_minimize example_cell 101 "- 1" "Some (- 1)"
      "Fin (1 / 10)" 200]
  by (simp add: draw_starts_def)

section \<open>A series without a flat region\<close>







section \<open>Loading a measured series\<close>














section \<open>The degraded curve\<close>

lemma guard_iff: "fle (fsub (Fin 1) L) (Fin 0) = fge L (Fin 1)"
  by (cases L) (simp_all add: fsub_def fge_def)

lemma guard_nonzero: "\<not> fle (fsub (Fin 1) L) (Fin 0) \<Longrightarrow> fsub (Fin 1) L \<noteq> Fin 0"
  by (cases L) (simp_all add: fsub_def)

lemma py_div_ok: "b \<noteq> Fin 0 \<Longrightarrow> py_div a b = Inr (fdiv a b)"
  by (simp add: py_div_def)

lemma ocv_pe_from_x_raw:
  "ocv_pe_from_x p x =
     interp_extrapolate (nmc p)
       (fadd (sol_nmc_eoc (endpoints p))
          (fmul x (fsub (sol_nmc_eod (endpoints p)) (sol_nmc_eoc (endpoints p)))))"
  by (simp add: ocv_pe_from_x_def ocv_nmc_from_x_def sol_nmc_from_x_def eval_ocv_def Let_def)

lemma ocv_ne_from_x_raw:
  "ocv_ne_from_x p x =
     interp_extrapolate (gra p)
       (fadd (sol_gra_eoc (endpoints p))
          (fmul x (fsub (sol_gra_eod (endpoints p)) (sol_gra_eoc (endpoints p)))))"
  by (simp add: ocv_ne_from_x_def ocv_gra_from_x_def sol_gra_from_x_def eval_ocv_def Let_def)

lemma ocv_nmc_from_x_map: "ocv_nmc_from_x p xs True = map (ocv_pe_from_x p) xs"
  by (simp add: ocv_pe_from_x_def ocv_nmc_from_x_def sol_nmc_from_x_def eval_ocv_def Let_def)

lemma ocv_gra_from_x_map: "ocv_gra_from_x p xs True = map (ocv_ne_from_x p) xs"
  by (simp add: ocv_ne_from_x_def ocv_gra_from_x_def sol_gra_from_x_def eval_ocv_def Let_def)

lemma map2_map_same: "map2 f (map g xs) (map h xs) = map (\<lambda>x. f (g x) (h x)) xs"
  by (induction xs) simp_all

lemma calculate_unfold:
  "calculate_degraded_ocv_raw fsolve p LLI LAM_PE LAM_NE num_points =
     (if fge LAM_PE (Fin 1) \<or> fge LAM_NE (Fin 1) then Inr None
      else case fsolve (equations p LLI LAM_PE LAM_NE) (Fin 0, Fin 0) (1 / 10 ^ 10) 2000 of
             Inl e \<Rightarrow> Inr None
           | Inr (s, ier) \<Rightarrow>
               if ier \<le> 0 then Inr None
               else sample_window p LLI LAM_PE LAM_NE num_points s)"
proof (cases "fge LAM_PE (Fin 1) \<or> fge LAM_NE (Fin 1)")
  case True
  then show ?thesis by (simp add: calculate_degraded_ocv_raw_def guard_iff)
next
  case False
  then have nz: "fsub (Fin 1) LAM_PE \<noteq> Fin 0" "fsub (Fin 1) LAM_NE \<noteq> Fin 0"
    by (simp_all add: guard_nonzero guard_iff)
  show ?thesis
    using False
    by (simp add: calculate_degraded_ocv_raw_def guard_iff py_div_ok [OF nz(1)]
          py_div_ok [OF nz(2)] ebind_def sample_window_def Let_def ocv_nmc_from_x_map
          ocv_gra_from_x_map map2_map_same window_position_def comp_def
          split: sum.splits prod.splits)
qed


lemma linspace_finite:
  assumes "a < b" and "0 \<le> num"
  shows "linspace (Fin a) (Fin b) num =
           Inr (map (\<lambda>i. Fin (a + real i * (b - a) / real (nat num - 1))) [0..<nat num])"
proof (cases "nat num \<le> 1")
  case True
  then have "nat num = 0 \<or> nat num = 1" by auto
  then show ?thesis
    using assms by (auto simp: linspace_def fsub_def)
next
  case False
  define n where "n = nat num"
  have n: "1 < n" using False by (simp add: n_def)
  have step: "fdiv (fsub (Fin b) (Fin a)) (Fin (real (n - 1))) = Fin ((b - a) / real (n - 1))"
    using n by (simp add: fsub_def)
  have nz: "(b - a) / real (n - 1) \<noteq> 0"
    using n assms by simp
  have split: "[0..<n] = [0..<n - 1] @ [n - 1]"
    using n by (metis Suc_diff_1 less_imp_Suc_add upt_Suc_append zero_le zero_less_Suc)
  have last: "a + real (n - 1) * (b - a) / real (n - 1) = b"
    using n by simp
  have "linspace (Fin a) (Fin b) num =
          Inr (map (\<lambda>i. Fin (a + real i * (b - a) / real (n - 1))) [0..<n - 1] @ [Fin b])"
    using assms n nz
    by (simp add: linspace_def Let_def n_def [symmetric] step fsub_def add.commute)
  also have "\<dots> = Inr (map (\<lambda>i. Fin (a + real i * (b - a) / real (n - 1)))
                         ([0..<n - 1] @ [n - 1]))"
    using last by simp
  also have "\<dots> = Inr (map (\<lambda>i. Fin (a + real i * (b - a) / real (n - 1))) [0..<n])"
    using split by simp
  finally show ?thesis by (simp add: n_def)
qed

lemma sample_window_SomeD:
  assumes "sample_window p LLI LAM_PE LAM_NE num_points s = Inr (Some d)"
  shows "\<exists>a b. x_cell_eoc d = Fin a \<and> x_cell_eod d = Fin b \<and> a < b \<and>
           cell_capacity d = Fin (b - a) \<and> 0 \<le> num_points \<and>
           capacity_norm d =
             map (\<lambda>i. Fin (a + real i * (b - a) / real (nat num_points - 1))) [0..<nat num_points] \<and>
           ocv_cell d =
             map (\<lambda>c. fsub (ocv_pe_from_x p (window_position (x_pe_eoc d) (x_pe_eod d)
                                (fdiv (fsub c (Fin a)) (Fin (b - a)))))
                            (ocv_ne_from_x p (window_position (x_ne_eoc d) (x_ne_eod d)
                                (fdiv (fsub c (Fin a)) (Fin (b - a))))))
                 (capacity_norm d)"
proof -
  let ?xcd = "fadd (fsub (Fin 1) LLI) (snd s)"
  from assms have fin: "isfinite (fst s)" "isfinite ?xcd" "\<not> fle ?xcd (fst s)"
    by (auto simp: sample_window_def Let_def split: if_splits)
  then obtain a b where ab: "fst s = Fin a" "?xcd = Fin b"
    by (cases "fst s"; cases ?xcd) simp_all
  with fin have lt: "a < b" by simp
  have num: "0 \<le> num_points"
    using assms fin by (auto simp: sample_window_def Let_def linspace_def ebind_def split: if_splits)
  show ?thesis
    using assms fin ab lt num
    by (auto simp: sample_window_def Let_def ebind_def linspace_finite fsub_def comp_def
          simp del: upt_Suc)
qed


lemma calculate_SomeD:
  assumes "calculate_degraded_ocv_raw fsolve p LLI LAM_PE LAM_NE num_points = Inr (Some d)"
  shows "\<exists>s ier. fsolve (equations p LLI LAM_PE LAM_NE) (Fin 0, Fin 0) (1 / 10 ^ 10) 2000
                   = Inr (s, ier) \<and> 0 < ier \<and>
                 sample_window p LLI LAM_PE LAM_NE num_points s = Inr (Some d)"
  using assms unfolding calculate_unfold
  by (auto split: if_splits sum.splits prod.splits)

lemma sample_fraction:
  assumes "a < b"
  shows "fdiv (fsub (Fin (a + real i * (b - a) / real n)) (Fin a)) (Fin (b - a))
           = Fin (real i / real n)"
  using assms by (simp add: fsub_def)

text \<open>
  Claim C2.  A successful result has a finite window \<open>x_cell_eoc < x_cell_eod\<close> whose
  width is \<open>cell_capacity\<close>; \<open>capacity_norm\<close> holds \<open>num_points\<close> values, sample \<open>i\<close> at
  \<open>x_cell_eoc + i \<cdot> (x_cell_eod - x_cell_eoc) / (num_points - 1)\<close>, so the first is
  \<open>x_cell_eoc\<close> and, from two points on, the last is \<open>x_cell_eod\<close>; at sample \<open>i\<close> each
  electrode sits at the fraction \<open>i / (num_points - 1)\<close> of its own window, its voltage is
  the interpolant there with extrapolation allowed (\<open>ocv_pe_from_x\<close>, \<open>ocv_ne_from_x\<close>),
  and \<open>ocv_cell\<close> is the positive minus the negative voltage.
\<close>

theorem degraded_curve_samples:
  assumes "calculate_degraded_ocv_raw fsolve p LLI LAM_PE LAM_NE num_points = Inr (Some d)"
  shows "\<exists>a b. x_cell_eoc d = Fin a \<and> x_cell_eod d = Fin b \<and> a < b \<and>
           cell_capacity d = Fin (b - a) \<and> 0 \<le> num_points \<and>
           length (capacity_norm d) = nat num_points \<and>
           length (ocv_cell d) = nat num_points \<and>
           (\<forall>i<nat num_points.
              capacity_norm d ! i = Fin (a + real i * (b - a) / real (nat num_points - 1)) \<and>
              ocv_cell d ! i =
                fsub (ocv_pe_from_x p (window_position (x_pe_eoc d) (x_pe_eod d)
                                         (Fin (real i / real (nat num_points - 1)))))
                     (ocv_ne_from_x p (window_position (x_ne_eoc d) (x_ne_eod d)
                                         (Fin (real i / real (nat num_points - 1)))))) \<and>
           (1 \<le> num_points \<longrightarrow> hd (capacity_norm d) = x_cell_eoc d) \<and>
           (2 \<le> num_points \<longrightarrow> last (capacity_norm d) = x_cell_eod d)"
proof -
  from calculate_SomeD [OF assms] obtain s where
    sw: "sample_window p LLI LAM_PE LAM_NE num_points s = Inr (Some d)" by blast
  from sample_window_SomeD [OF sw] obtain a b where
    ab: "x_cell_eoc d = Fin a" "x_cell_eod d = Fin b" "a < b" "cell_capacity d = Fin (b - a)"
      "0 \<le> num_points"
    and cn: "capacity_norm d =
             map (\<lambda>i. Fin (a + real i * (b - a) / real (nat num_points - 1))) [0..<nat num_points]"
    and oc: "ocv_cell d =
             map (\<lambda>c. fsub (ocv_pe_from_x p (window_position (x_pe_eoc d) (x_pe_eod d)
                                (fdiv (fsub c (Fin a)) (Fin (b - a)))))
                            (ocv_ne_from_x p (window_position (x_ne_eoc d) (x_ne_eod d)
                                (fdiv (fsub c (Fin a)) (Fin (b - a))))))
                 (capacity_norm d)"
    by blast
  let ?n = "nat num_points"
  have len: "length (capacity_norm d) = ?n" by (simp add: cn)
  have len2: "length (ocv_cell d) = ?n" by (subst oc) (simp add: len)
  have nth: "capacity_norm d ! i = Fin (a + real i * (b - a) / real (?n - 1))" if "i < ?n" for i
    using that by (simp add: cn)
  have onth: "ocv_cell d ! i =
                fsub (ocv_pe_from_x p (window_position (x_pe_eoc d) (x_pe_eod d)
                                         (Fin (real i / real (?n - 1)))))
                     (ocv_ne_from_x p (window_position (x_ne_eoc d) (x_ne_eod d)
                                         (Fin (real i / real (?n - 1)))))" if "i < ?n" for i
  proof -
    have "ocv_cell d ! i =
            fsub (ocv_pe_from_x p (window_position (x_pe_eoc d) (x_pe_eod d)
                      (fdiv (fsub (capacity_norm d ! i) (Fin a)) (Fin (b - a)))))
                 (ocv_ne_from_x p (window_position (x_ne_eoc d) (x_ne_eod d)
                      (fdiv (fsub (capacity_norm d ! i) (Fin a)) (Fin (b - a)))))"
      using that len by (subst oc) simp
    then show ?thesis
      using that by (simp only: nth sample_fraction [OF ab(3)])
  qed
  have hd: "hd (capacity_norm d) = x_cell_eoc d" if "1 \<le> num_points"
  proof -
    have "0 < ?n" using that by simp
    then have "capacity_norm d \<noteq> []" using len by auto
    then have "hd (capacity_norm d) = capacity_norm d ! 0"
      by (rule hd_conv_nth)
    also have "\<dots> = Fin a" using \<open>0 < ?n\<close> by (simp add: nth)
    finally show ?thesis by (simp add: ab)
  qed
  have last: "last (capacity_norm d) = x_cell_eod d" if "2 \<le> num_points"
  proof -
    have n: "1 < ?n" using that by simp
    then have "capacity_norm d \<noteq> []" using len by auto
    then have "last (capacity_norm d) = capacity_norm d ! (?n - 1)"
      using len by (simp add: last_conv_nth)
    also have "\<dots> = Fin (a + real (?n - 1) * (b - a) / real (?n - 1))"
      using n by (simp add: nth)
    also have "\<dots> = Fin b" using n by simp
    finally show ?thesis by (simp add: ab)
  qed
  show ?thesis
    using ab len len2 nth onth hd last by blast
qed

lemma sloped_calc:
  "calculate_degraded_ocv_raw (stalled_fsolve 1) sloped_cell (Fin 0) (Fin 0) (Fin 0) 3 =
     Inr (Some \<lparr>lli = Fin 0, lam_pe = Fin 0, lam_ne = Fin 0,
            delta_x_eoc = Fin 0, delta_x_eod = Fin 0, x_cell_eoc = Fin 0, x_cell_eod = Fin 1,
            cell_capacity = Fin 1, x_pe_eoc = Fin 0, x_pe_eod = Fin 1,
            x_ne_eoc = Fin 0, x_ne_eod = Fin 1,
            capacity_norm = [Fin 0, Fin (1 / 2), Fin 1],
            ocv_cell = [Fin 3, Fin (11 / 4), Fin (5 / 2)]\<rparr>)"
  by (simp add: calculate_unfold stalled_fsolve_def sample_window_def fge_def fsub_def
        linspace_def ebind_def Let_def window_position_def ocv_pe_from_x_raw ocv_ne_from_x_raw
        sloped_cell_def pe_curve_def ne_curve_def upt_rec)

lemma unconverged_calc:
  "calculate_degraded_ocv_raw (stalled_fsolve 5) example_cell (Fin (1 / 2)) (Fin 0) (Fin 0) 3 =
     Inr (Some \<lparr>lli = Fin (1 / 2), lam_pe = Fin 0, lam_ne = Fin 0,
            delta_x_eoc = Fin 0, delta_x_eod = Fin 0, x_cell_eoc = Fin 0, x_cell_eod = Fin (1 / 2),
            cell_capacity = Fin (1 / 2), x_pe_eoc = Fin 0, x_pe_eod = Fin (1 / 2),
            x_ne_eoc = Fin (1 / 2), x_ne_eod = Fin 1,
            capacity_norm = [Fin 0, Fin (1 / 4), Fin (1 / 2)],
            ocv_cell = [Fin (7 / 2), Fin (7 / 2), Fin (7 / 2)]\<rparr>)"
  by (simp add: calculate_unfold stalled_fsolve_def sample_window_def fge_def fsub_def
        linspace_def ebind_def Let_def window_position_def ocv_pe_from_x_raw ocv_ne_from_x_raw
        example_cell_def pe_curve_def ne_curve_def upt_rec)

lemma example_residual:
  "equations example_cell (Fin (1 / 2)) (Fin 0) (Fin 0) (Fin a, Fin b)
     = Inr (Fin (- 1 / 2), Fin (- 1 / 2))"
  by (simp add: equations_def py_div_def ebind_def fsub_def ocv_pe_from_x_raw ocv_ne_from_x_raw
        example_cell_def pe_curve_def ne_curve_def)

lemma sloped_calc':
  "calculate_degraded_ocv_raw (stalled_fsolve 1) sloped_cell (Fin 0) (Fin 0) (Fin 0) 3 =
     Inr (Some sloped_curve)"
  using sloped_calc by (simp add: sloped_curve_def)

theorem degraded_curve_samples_witness:
  "calculate_degraded_ocv_raw (stalled_fsolve 1) sloped_cell (Fin 0) (Fin 0) (Fin 0) 3 =
     Inr (Some sloped_curve) \<and>
   (\<exists>a b. x_cell_eoc sloped_curve = Fin a \<and> x_cell_eod sloped_curve = Fin b \<and> a < b \<and>
      cell_capacity sloped_curve = Fin (b - a) \<and> (0::int) \<le> 3 \<and>
      length (capacity_norm sloped_curve) = nat 3 \<and>
      length (ocv_cell sloped_curve) = nat 3 \<and>
      (\<forall>i<nat 3.
         capacity_norm sloped_curve ! i = Fin (a + real i * (b - a) / real (nat 3 - 1)) \<and>
         ocv_cell sloped_curve ! i =
           fsub (ocv_pe_from_x sloped_cell
                   (window_position (x_pe_eoc sloped_curve) (x_pe_eod sloped_curve)
                      (Fin (real i / real (nat 3 - 1)))))
                (ocv_ne_from_x sloped_cell
                   (window_position (x_ne_eoc sloped_curve) (x_ne_eod sloped_curve)
                      (Fin (real i / real (nat 3 - 1)))))) \<and>
      ((1::int) \<le> 3 \<longrightarrow> hd (capacity_norm sloped_curve) = x_cell_eoc sloped_curve) \<and>
      ((2::int) \<le> 3 \<longrightarrow> last (capacity_norm sloped_curve) = x_cell_eod sloped_curve))"
  using degraded_curve_samples [OF sloped_calc'] sloped_calc' by blast

text \<open>
  When \<^verbatim>\<open>calculate_degraded_ocv_raw\<close> answers \<^verbatim>\<open>None\<close>: an active-material loss of one or
  more, a root finder that raises or reports a flag \<open>ier \<le> 0\<close>, or a window that is
  not finite or not positive.  A positive flag other than 1 is not among the cases.
\<close>

lemma sample_window_None_iff:
  "sample_window p LLI LAM_PE LAM_NE num_points s = Inr None \<longleftrightarrow>
     \<not> isfinite (fst s) \<or> \<not> isfinite (fadd (fsub (Fin 1) LLI) (snd s)) \<or>
     fle (fadd (fsub (Fin 1) LLI) (snd s)) (fst s)"
  by (auto simp: sample_window_def Let_def ebind_def split: sum.splits)

lemma calculate_None_iff:
  "calculate_degraded_ocv_raw fsolve p LLI LAM_PE LAM_NE num_points = Inr None \<longleftrightarrow>
     fge LAM_PE (Fin 1) \<or> fge LAM_NE (Fin 1) \<or>
     (case fsolve (equations p LLI LAM_PE LAM_NE) (Fin 0, Fin 0) (1 / 10 ^ 10) 2000 of
        Inl e \<Rightarrow> True
      | Inr (s, ier) \<Rightarrow>
          ier \<le> 0 \<or> \<not> isfinite (fst s) \<or> \<not> isfinite (fadd (fsub (Fin 1) LLI) (snd s)) \<or>
          fle (fadd (fsub (Fin 1) LLI) (snd s)) (fst s))"
  unfolding calculate_unfold
  by (auto simp: sample_window_None_iff split: sum.splits prod.splits)

text \<open>
  Claim C1 on the code.  For the two-point cell and \<open>\<theta> = (0.5, 0, 0)\<close> the residual is
  \<open>(-0.5, -0.5)\<close> at every finite point, so the system has no root and no root finder
  can converge on it.  A solver that stops without an accepted step hands back its
  start \<open>(0, 0)\<close> with a flag that is not 1 (the flag 5 of MINPACK: no progress).
  \<^verbatim>\<open>calculate_degraded_ocv_raw\<close> rejects only flags \<open>\<le> 0\<close> and returns a curve on the window
  \<open>[0, 0.5]\<close>, whose voltage 3.5 V at the start of the window is not \<open>v_max = 3\<close>.
\<close>

theorem unconverged_root_solve_accepted:
  "(\<forall>a b. equations example_cell (Fin (1 / 2)) (Fin 0) (Fin 0) (Fin a, Fin b)
            = Inr (Fin (- 1 / 2), Fin (- 1 / 2))) \<and>
   \<not> converged 5 \<and>
   stalled_fsolve 5 (equations example_cell (Fin (1 / 2)) (Fin 0) (Fin 0)) (Fin 0, Fin 0)
       (1 / 10 ^ 10) 2000 = Inr ((Fin 0, Fin 0), 5) \<and>
   calculate_degraded_ocv_raw (stalled_fsolve 5) example_cell (Fin (1 / 2)) (Fin 0) (Fin 0) 3
     = Inr (Some unconverged_curve) \<and>
   v_max example_cell = Fin 3 \<and> hd (ocv_cell unconverged_curve) = Fin (7 / 2)"
  using example_residual unconverged_calc
  by (simp add: converged_def stalled_fsolve_def unconverged_curve_def example_cell_def)

theorem unconverged_root_solve_accepted_witness:
  "calculate_degraded_ocv_raw (stalled_fsolve 5) example_cell (Fin (1 / 2)) (Fin 0) (Fin 0) 3
     = Inr (Some unconverged_curve) \<and>
   x_cell_eoc unconverged_curve = Fin 0 \<and> x_cell_eod unconverged_curve = Fin (1 / 2)"
  using unconverged_root_solve_accepted by (simp add: unconverged_curve_def)

section \<open>The objective of the estimator\<close>

lemma np_mask_nth:
  assumes "length msk = length xs"
  shows "np_mask xs msk = map (\<lambda>i. xs ! i) (filter (\<lambda>i. msk ! i) [0..<length xs])"
proof -
  have z: "zip xs msk = map (\<lambda>i. (xs ! i, msk ! i)) [0..<length xs]"
    using assms by (intro nth_equalityI) simp_all
  show ?thesis
    unfolding np_mask_def z by (simp add: filter_map comp_def)
qed

lemma linspace_nonneg: "0 \<le> num \<Longrightarrow> \<exists>xs. linspace a b num = Inr xs"
  by (simp add: linspace_def Let_def)

lemma calculate_no_raise:
  assumes "0 \<le> num_points"
  shows "\<exists>r. calculate_degraded_ocv_raw fsolve p LLI LAM_PE LAM_NE num_points = Inr r"
proof -
  have "\<exists>r. sample_window p LLI LAM_PE LAM_NE num_points s = Inr r" for s
    using linspace_nonneg [OF assms]
    by (simp add: sample_window_def Let_def ebind_def split: sum.splits) (metis sum.simps(4))
  then show ?thesis
    unfolding calculate_unfold by (auto split: sum.splits prod.splits)
qed

lemma np_sum_NaN: "xs \<noteq> [] \<Longrightarrow> \<forall>x\<in>set xs. x = NaN \<Longrightarrow> np_sum xs = NaN"
  by (cases xs) (simp_all add: np_sum_def)

lemma interp_at_single:
  assumes "isfinite x"
  shows "interp_at [x] [y] v = NaN"
proof -
  obtain r where "x = Fin r" using assms by (cases x) simp_all
  then have "fdiv (fsub y y) (fsub x x) = NaN"
    by (cases y) (simp_all add: fsub_def signed_inf_def)
  then show ?thesis
    by (simp add: interp_at_def Let_def)
qed

lemma flat_rmse_single:
  assumes "capacity_norm d = [c]" and "ocv_cell d = [y]" and "isfinite (fsub c (x_cell_eoc d))"
  shows "flat_rmse d cap ocv_a msk = NaN"
proof -
  have p: "predicted_at d v = NaN" for v
    using assms by (simp add: predicted_at_def interp_at_single)
  let ?flat = "filter (\<lambda>i. msk ! i) [0..<length cap]"
  have "np_sum (map (\<lambda>i. NaN) ?flat) = NaN \<or> ?flat = []"
    by (cases ?flat) (simp_all add: np_sum_def)
  then have "fdiv (np_sum (map (\<lambda>i. NaN) ?flat)) (Fin (real (length ?flat))) = NaN"
    by (auto simp: np_sum_def signed_inf_def)
  then show ?thesis
    by (simp add: flat_rmse_def p Let_def fsub_def)
qed

lemma code_rmse:
  assumes lo: "length ocv_a = length cap" and lm: "length msk = length cap"
  shows "ebind (bool_index (map (interp_at xs ys) cap) msk) (\<lambda>pm.
           ebind (bool_index ocv_a msk) (\<lambda>om.
           ebind (np_binop fsub pm om) (\<lambda>err.
             if \<not> isfinite (fsqrt (np_mean (map (\<lambda>e. fmul e e) err))) then Inr penalty
             else Inr (fsqrt (np_mean (map (\<lambda>e. fmul e e) err))))))
         = (let flat = filter (\<lambda>i. msk ! i) [0..<length cap];
                sq_err = (\<lambda>i. fmul (fsub (interp_at xs ys (cap ! i)) (ocv_a ! i))
                                  (fsub (interp_at xs ys (cap ! i)) (ocv_a ! i)));
                rmse = fsqrt (fdiv (np_sum (map sq_err flat)) (Fin (real (length flat))))
            in if \<not> isfinite rmse then Inr penalty else Inr rmse)"
proof -
  let ?flat = "filter (\<lambda>i. msk ! i) [0..<length cap]"
  let ?pred = "map (interp_at xs ys) cap"
  have pm: "bool_index ?pred msk = Inr (map (\<lambda>i. ?pred ! i) ?flat)"
    using lm by (simp add: bool_index_def np_mask_nth)
  have om: "bool_index ocv_a msk = Inr (map (\<lambda>i. ocv_a ! i) ?flat)"
    using lm lo by (simp add: bool_index_def np_mask_nth)
  have pn: "map (\<lambda>i. ?pred ! i) ?flat = map (\<lambda>i. interp_at xs ys (cap ! i)) ?flat"
    by (rule map_cong) auto
  have err: "np_binop fsub (map (\<lambda>i. ?pred ! i) ?flat) (map (\<lambda>i. ocv_a ! i) ?flat)
               = Inr (map (\<lambda>i. fsub (interp_at xs ys (cap ! i)) (ocv_a ! i)) ?flat)"
    unfolding pn by (simp add: np_binop_def map2_map_same)
  show ?thesis
    by (simp add: pm om err ebind_def np_mean_def Let_def comp_def)
qed

lemma objective_eq:
  assumes lo: "length ocv_a = length cap" and lm: "length msk = length cap"
    and np: "1 \<le> num_points"
  shows "\<exists>r. calculate_degraded_ocv_raw fsolve p LLI LAM_PE LAM_NE num_points = Inr r \<and>
             objective fsolve p cap ocv_a msk num_points (LLI, LAM_PE, LAM_NE) =
               Inr (case r of
                      None \<Rightarrow> penalty
                    | Some d \<Rightarrow>
                        if \<not> isfinite (cell_capacity d) \<or> fle (cell_capacity d) (Fin 0)
                        then penalty
                        else if \<not> isfinite (flat_rmse d cap ocv_a msk) then penalty
                        else flat_rmse d cap ocv_a msk)"
proof -
  from np have "0 \<le> num_points" by simp
  from calculate_no_raise [OF this] obtain r where
    r: "calculate_degraded_ocv_raw fsolve p LLI LAM_PE LAM_NE num_points = Inr r" by blast
  show ?thesis
  proof (cases r)
    case None
    then show ?thesis using r by (simp add: objective_def ebind_def)
  next
    case (Some d)
    with r have c: "calculate_degraded_ocv_raw fsolve p LLI LAM_PE LAM_NE num_points
                      = Inr (Some d)" by simp
    from calculate_SomeD [OF c] obtain s where
      sw: "sample_window p LLI LAM_PE LAM_NE num_points s = Inr (Some d)" by blast
    from sample_window_SomeD [OF sw] obtain a b where
      ab: "x_cell_eoc d = Fin a" "a < b" "cell_capacity d = Fin (b - a)"
      and cn: "capacity_norm d =
                 map (\<lambda>i. Fin (a + real i * (b - a) / real (nat num_points - 1)))
                   [0..<nat num_points]"
      and oc: "ocv_cell d =
             map (\<lambda>c. fsub (ocv_pe_from_x p (window_position (x_pe_eoc d) (x_pe_eod d)
                                (fdiv (fsub c (Fin a)) (Fin (b - a)))))
                            (ocv_ne_from_x p (window_position (x_ne_eoc d) (x_ne_eod d)
                                (fdiv (fsub c (Fin a)) (Fin (b - a))))))
                 (capacity_norm d)"
      by blast
    have len1: "length (capacity_norm d) = nat num_points" by (simp add: cn)
    have len2: "length (ocv_cell d) = nat num_points" by (subst oc) (simp add: len1)
    note len = len1 len2
    have nth: "\<forall>i<nat num_points.
                  capacity_norm d ! i = Fin (a + real i * (b - a) / real (nat num_points - 1))"
      by (simp add: cn)
    have win: "\<not> (\<not> isfinite (cell_capacity d) \<or> fle (cell_capacity d) (Fin 0))"
      using ab by simp
    let ?xs = "map (\<lambda>c. fsub c (x_cell_eoc d)) (capacity_norm d)"
    show ?thesis
    proof (cases "nat num_points < 2")
      case True
      with np have n1: "nat num_points = 1" by simp
      then obtain c where cn: "capacity_norm d = [c]"
        using len(1) by (cases "capacity_norm d") simp_all
      from n1 obtain y where oc: "ocv_cell d = [y]"
        using len(2) by (cases "ocv_cell d") simp_all
      have "c = Fin a" using nth n1 cn by simp
      then have "isfinite (fsub c (x_cell_eoc d))" by (simp add: ab fsub_def)
      from flat_rmse_single [OF cn oc this]
      have "flat_rmse d cap ocv_a msk = NaN" .
      then show ?thesis
        using c r Some win cn by (simp add: objective_def ebind_def Let_def)
    next
      case False
      then have n2: "\<not> length ?xs < 2" "length ?xs = length (ocv_cell d)" "\<not> length ?xs < 1"
        using len by simp_all
      have i1: "interp1d_linear ?xs (ocv_cell d) cap = Inr (map (interp_at ?xs (ocv_cell d)) cap)"
        using n2 by (simp add: interp1d_linear_def)
      have "objective fsolve p cap ocv_a msk num_points (LLI, LAM_PE, LAM_NE) =
              (if \<not> isfinite (flat_rmse d cap ocv_a msk) then Inr penalty
               else Inr (flat_rmse d cap ocv_a msk))"
        using c win n2(1) i1
        by (simp add: objective_def ebind_def [of "Inr (Some d)"] Let_def
              code_rmse [OF lo lm, unfolded Let_def] flat_rmse_def predicted_at_def)
      then show ?thesis
        using r Some win by simp
    qed
  qed
qed

text \<open>
  Claim C4.  For a measured series with arrays of equal length, a mask of that length
  and at least one sample point, the objective never raises.  It is the penalty when
  the degradation solve returns \<^verbatim>\<open>None\<close>, when the window is not finite or not positive,
  and when the RMSE over the flat mask is not finite; otherwise it is that RMSE.  (With a
  single sample the two neighbours of the interpolation coincide, the RMSE is NaN and
  the objective is the penalty.)
\<close>

theorem objective_value:
  assumes lo: "length ocv_a = length cap" and lm: "length msk = length cap"
    and np: "1 \<le> num_points"
  shows "\<exists>r. calculate_degraded_ocv_raw fsolve p LLI LAM_PE LAM_NE num_points = Inr r \<and>
             objective fsolve p cap ocv_a msk num_points (LLI, LAM_PE, LAM_NE) =
               Inr (case r of
                      None \<Rightarrow> penalty
                    | Some d \<Rightarrow>
                        if \<not> isfinite (cell_capacity d) \<or> fle (cell_capacity d) (Fin 0)
                        then penalty
                        else if \<not> isfinite (flat_rmse d cap ocv_a msk) then penalty
                        else flat_rmse d cap ocv_a msk)"
  using lo lm np by (rule objective_eq)

lemma sqrt_9_100: "sqrt (9 / 100) = 3 / 10"
  by (rule real_sqrt_unique) (simp_all add: power2_eq_square)

lemma sloped_predicted:
  "predicted_at sloped_curve (Fin 0) = Fin 3"
  "predicted_at sloped_curve (Fin (1 / 2)) = Fin (11 / 4)"
  "predicted_at sloped_curve (Fin 1) = Fin (5 / 2)"
  by (simp_all add: predicted_at_def sloped_curve_def interp_at_def searchsorted_def fsub_def
        Let_def)

lemma sloped_flat_rmse:
  "flat_rmse sloped_curve (capacity offset_series) (ocv offset_series) [True, True, False]
     = Fin (3 / 10)"
  by (simp add: flat_rmse_def offset_series_def sloped_predicted Let_def upt_rec np_sum_def
        fsub_def sqrt_9_100)

theorem objective_value_witness:
  "objective (stalled_fsolve 1) sloped_cell (capacity offset_series) (ocv offset_series)
     [True, True, False] 3 (Fin 0, Fin 0, Fin 0) = Inr (Fin (3 / 10)) \<and>
   objective (stalled_fsolve 1) sloped_cell (capacity offset_series) (ocv offset_series)
     [True, True, False] 3 (Fin 0, Fin 1, Fin 0) = Inr penalty"
proof
  have "\<exists>r. calculate_degraded_ocv_raw (stalled_fsolve 1) sloped_cell (Fin 0) (Fin 0) (Fin 0) 3
              = Inr r \<and>
          objective (stalled_fsolve 1) sloped_cell (capacity offset_series) (ocv offset_series)
            [True, True, False] 3 (Fin 0, Fin 0, Fin 0) =
            Inr (case r of None \<Rightarrow> penalty
                 | Some d \<Rightarrow>
                     if \<not> isfinite (cell_capacity d) \<or> fle (cell_capacity d) (Fin 0)
                     then penalty
                     else if \<not> isfinite (flat_rmse d (capacity offset_series)
                                            (ocv offset_series) [True, True, False])
                     then penalty
                     else flat_rmse d (capacity offset_series) (ocv offset_series)
                            [True, True, False])"
    by (rule objective_value) (simp_all add: offset_series_def)
  then show "objective (stalled_fsolve 1) sloped_cell (capacity offset_series)
      (ocv offset_series) [True, True, False] 3 (Fin 0, Fin 0, Fin 0) = Inr (Fin (3 / 10))"
    by (simp add: sloped_calc' sloped_flat_rmse) (simp add: sloped_curve_def)
next
  have "\<exists>r. calculate_degraded_ocv_raw (stalled_fsolve 1) sloped_cell (Fin 0) (Fin 1) (Fin 0) 3
              = Inr r \<and>
          objective (stalled_fsolve 1) sloped_cell (capacity offset_series) (ocv offset_series)
            [True, True, False] 3 (Fin 0, Fin 1, Fin 0) =
            Inr (case r of None \<Rightarrow> penalty
                 | Some d \<Rightarrow>
                     if \<not> isfinite (cell_capacity d) \<or> fle (cell_capacity d) (Fin 0)
                     then penalty
                     else if \<not> isfinite (flat_rmse d (capacity offset_series)
                                            (ocv offset_series) [True, True, False])
                     then penalty
                     else flat_rmse d (capacity offset_series) (ocv offset_series)
                            [True, True, False])"
    by (rule objective_value) (simp_all add: offset_series_def)
  moreover have "calculate_degraded_ocv_raw (stalled_fsolve 1) sloped_cell (Fin 0) (Fin 1) (Fin 0) 3
                   = Inr None"
    by (simp add: calculate_None_iff fge_def)
  ultimately show "objective (stalled_fsolve 1) sloped_cell (capacity offset_series)
      (ocv offset_series) [True, True, False] 3 (Fin 0, Fin 1, Fin 0) = Inr penalty"
    by simp
qed

section \<open>The multistart loop\<close>

lemma step_outcome:
  "multistart_step minimize obj maxiter (bx, br, k) x0 =
     (case start_outcome minimize obj maxiter x0 of
        None \<Rightarrow> (bx, br, k)
      | Some r \<Rightarrow> if flt (fst r) br then (Some (snd r), fst r, k + 1) else (bx, br, k + 1))"
proof (cases "minimize obj x0 maxiter")
  case (Inl err)
  then show ?thesis by (simp add: multistart_step_def start_outcome_def)
next
  case (Inr res)
  then show ?thesis
    by (cases "res_fun res") (simp_all add: multistart_step_def start_outcome_def)
qed

lemma step_skips_raise:
  "minimize obj x0 maxiter = Inl err \<Longrightarrow> multistart_step minimize obj maxiter st x0 = st"
  by (cases st) (simp add: multistart_step_def)

lemma outcome_finite: "start_outcome minimize obj maxiter x0 = Some r \<Longrightarrow> isfinite (fst r)"
  by (auto simp: start_outcome_def split: sum.splits option.splits if_splits)

lemma fle_trans_fin: "flt f b \<Longrightarrow> fle b g \<Longrightarrow> fle f g"
  by (cases f; cases b; cases g) (simp_all add: flt_def)

lemma not_flt_fin: "isfinite f \<Longrightarrow> isfinite b \<Longrightarrow> \<not> flt f b \<Longrightarrow> fle b f"
  by (cases f; cases b) (auto simp: flt_def)

lemma fle_refl_fin: "isfinite f \<Longrightarrow> fle f f"
  by (cases f) simp_all

lemma flt_PInf: "isfinite f \<Longrightarrow> flt f PInf"
  by (cases f) (simp_all add: flt_def)

lemma best_of_step:
  assumes inv: "best_of S st" and fin: "list_all (\<lambda>r. isfinite (fst r)) S"
  shows "best_of (S @ (case start_outcome minimize obj maxiter x0 of None \<Rightarrow> [] | Some r \<Rightarrow> [r]))
           (multistart_step minimize obj maxiter st x0)"
proof -
  obtain bx br k where st: "st = (bx, br, k)" by (cases st)
  show ?thesis
  proof (cases "start_outcome minimize obj maxiter x0")
    case None
    then show ?thesis using inv st by (simp add: step_outcome)
  next
    case (Some r)
    have ff: "isfinite (fst r)" using Some by (rule outcome_finite)
    show ?thesis
    proof (cases "S = []")
      case True
      then show ?thesis
        using inv st Some ff
        by (simp add: step_outcome best_of_def flt_PInf fle_refl_fin)
    next
      case False
      with inv st obtain x' where b: "bx = Some x'" "(br, x') \<in> set S"
        "list_all (\<lambda>r. fle br (fst r)) S" "k = int (length S)"
        by (auto simp: best_of_def)
      have fb: "isfinite br" using b(2) fin by (auto simp: list_all_iff)
      show ?thesis
      proof (cases "flt (fst r) br")
        case True
        have "list_all (\<lambda>q. fle (fst r) (fst q)) S"
          using b(3) True by (auto simp: list_all_iff intro: fle_trans_fin)
        then show ?thesis
          using True st Some b ff
          by (simp add: step_outcome best_of_def fle_refl_fin)
      next
        case nf: False
        have "fle br (fst r)" using ff fb nf by (rule not_flt_fin)
        then show ?thesis
          using nf st Some b False
          by (auto simp: step_outcome best_of_def)
      qed
    qed
  qed
qed

lemma successful_starts_Cons:
  "successful_starts minimize obj maxiter (x0 # xs) =
     (case start_outcome minimize obj maxiter x0 of None \<Rightarrow> [] | Some r \<Rightarrow> [r])
       @ successful_starts minimize obj maxiter xs"
  by (simp add: successful_starts_def split: option.splits)

lemma best_of_foldl:
  assumes "best_of S st" and "list_all (\<lambda>r. isfinite (fst r)) S"
  shows "best_of (S @ successful_starts minimize obj maxiter starts)
           (foldl (multistart_step minimize obj maxiter) st starts)"
  using assms
proof (induction starts arbitrary: S st)
  case Nil
  then show ?case by (simp add: successful_starts_def)
next
  case (Cons x0 xs)
  let ?r = "case start_outcome minimize obj maxiter x0 of None \<Rightarrow> [] | Some r \<Rightarrow> [r]"
  have 1: "best_of (S @ ?r) (multistart_step minimize obj maxiter st x0)"
    using Cons.prems by (rule best_of_step)
  have 2: "list_all (\<lambda>r. isfinite (fst r)) (S @ ?r)"
    using Cons.prems(2) by (auto split: option.splits dest: outcome_finite)
  from Cons.IH [OF 1 2] show ?case
    by (simp add: successful_starts_Cons)
qed

lemma multistart_result:
  "best_of (successful_starts minimize obj maxiter starts)
     (foldl (multistart_step minimize obj maxiter) (None, PInf, 0) starts)"
proof -
  have "best_of [] (None, PInf, 0)" by (simp add: best_of_def)
  from best_of_foldl [OF this] show ?thesis by simp
qed

lemma estimate_SomeD:
  assumes "estimate_diagnostics_multistart fsolve rng_row minimize p measured num_points
             num_starts seed glim maxiter = Inr (Some e)"
  shows "0 \<le> num_starts \<and> starts_tried e = num_starts \<and>
         foldl (multistart_step minimize
                  (objective fsolve p (capacity measured) (ocv measured) (mask_flat e) num_points)
                  maxiter)
               (None, PInf, 0) (map (rng_row seed) [0..<nat num_starts])
           = (Some (theta e), rmse_v e, starts_success e) \<and>
         isfinite (rmse_v e)"
  using assms
  by (auto simp: estimate_diagnostics_multistart_def Let_def ebind_def draw_starts_def
        split: if_splits sum.splits option.splits prod.splits)

text \<open>
  Claim C7.  A start whose local optimization raises leaves the loop state as it was.
  When \<^verbatim>\<open>estimate_diagnostics_multistart\<close> returns an estimate, \<open>starts_tried\<close> is
  \<open>num_starts\<close>, \<open>starts_success\<close> counts the starts with a finite objective value and is
  at least one, and \<open>(rmse_v, theta)\<close> is the value and the point of one of those starts,
  with no finite value of any start below \<open>rmse_v\<close>.
\<close>

theorem multistart_best_estimate:
  assumes "estimate_diagnostics_multistart fsolve rng_row minimize p measured num_points
             num_starts seed glim maxiter = Inr (Some e)"
  shows "(\<forall>obj st x0 err. minimize obj x0 maxiter = Inl err \<longrightarrow>
            multistart_step minimize obj maxiter st x0 = st) \<and>
         (let S = successful_starts minimize
                    (objective fsolve p (capacity measured) (ocv measured) (mask_flat e)
                       num_points)
                    maxiter (map (rng_row seed) [0..<nat num_starts])
          in 0 \<le> num_starts \<and> starts_tried e = num_starts \<and>
             starts_success e = int (length S) \<and> 1 \<le> starts_success e \<and>
             isfinite (rmse_v e) \<and> (rmse_v e, theta e) \<in> set S \<and>
             list_all (\<lambda>r. fle (rmse_v e) (fst r)) S)"
proof -
  let ?obj = "objective fsolve p (capacity measured) (ocv measured) (mask_flat e) num_points"
  let ?starts = "map (rng_row seed) [0..<nat num_starts]"
  let ?S = "successful_starts minimize ?obj maxiter ?starts"
  from estimate_SomeD [OF assms] have
    n: "0 \<le> num_starts" "starts_tried e = num_starts" "isfinite (rmse_v e)"
    and f: "foldl (multistart_step minimize ?obj maxiter) (None, PInf, 0) ?starts
              = (Some (theta e), rmse_v e, starts_success e)"
    by simp_all
  have inv: "best_of ?S (Some (theta e), rmse_v e, starts_success e)"
    using multistart_result [of minimize ?obj maxiter ?starts] by (simp only: f)
  then have ne: "?S \<noteq> []" by (auto simp: best_of_def)
  then have pos: "1 \<le> int (length ?S)" by (cases ?S) simp_all
  from inv ne have "starts_success e = int (length ?S)"
    "(rmse_v e, theta e) \<in> set ?S" "list_all (\<lambda>r. fle (rmse_v e) (fst r)) ?S"
    by (auto simp: best_of_def)
  with pos have "starts_success e = int (length ?S)" "1 \<le> starts_success e"
    "(rmse_v e, theta e) \<in> set ?S" "list_all (\<lambda>r. fle (rmse_v e) (fst r)) ?S"
    by simp_all
  with n show ?thesis
    by (simp add: step_skips_raise Let_def)
qed

lemma offset_mask:
  "gradient_mask (capacity offset_series) (ocv offset_series) (Fin (1 / 10))
     = Inr [True, True, False]"
  by (simp add: gradient_mask_eq offset_series_def upt_rec gradient_at_def fsub_def
        np_maximum_def flt_def)

lemma offset_objective:
  "objective (stalled_fsolve 1) sloped_cell (capacity offset_series) (ocv offset_series)
     [True, True, False] 3 (Fin 0, Fin 0, Fin 0) = Inr (Fin (3 / 10))"
proof -
  have "\<exists>r. calculate_degraded_ocv_raw (stalled_fsolve 1) sloped_cell (Fin 0) (Fin 0) (Fin 0) 3
              = Inr r \<and>
          objective (stalled_fsolve 1) sloped_cell (capacity offset_series) (ocv offset_series)
            [True, True, False] 3 (Fin 0, Fin 0, Fin 0) =
            Inr (case r of None \<Rightarrow> penalty
                 | Some d \<Rightarrow>
                     if \<not> isfinite (cell_capacity d) \<or> fle (cell_capacity d) (Fin 0)
                     then penalty
                     else if \<not> isfinite (flat_rmse d (capacity offset_series)
                                            (ocv offset_series) [True, True, False])
                     then penalty
                     else flat_rmse d (capacity offset_series) (ocv offset_series)
                            [True, True, False])"
    by (rule objective_eq) (simp_all add: offset_series_def)
  then show ?thesis
    by (simp add: sloped_calc' sloped_flat_rmse) (simp add: sloped_curve_def)
qed

lemma offset_fold:
  "foldl (multistart_step picky_minimize
            (objective (stalled_fsolve 1) sloped_cell (capacity offset_series)
               (ocv offset_series) [True, True, False] 3) 200)
     (None, PInf, 0) [(Fin 0, Fin 0, Fin 0), (Fin 1, Fin 0, Fin 0)]
   = (Some (Fin 0, Fin 0, Fin 0), Fin (3 / 10), 1)"
  by (simp add: multistart_step_def picky_minimize_def eval_minimize_def offset_objective
        flt_def)

lemma offset_predicted:
  "interp1d_linear (map (\<lambda>c. fsub c (x_cell_eoc sloped_curve)) (capacity_norm sloped_curve))
     (ocv_cell sloped_curve) (capacity offset_series)
   = Inr [Fin 3, Fin (11 / 4), Fin (5 / 2)]"
  using sloped_predicted
  by (simp add: interp1d_linear_def predicted_at_def offset_series_def)
     (simp add: sloped_curve_def)

lemma offset_run:
  "estimate_diagnostics_multistart (stalled_fsolve 1) counting_rows picky_minimize sloped_cell
     offset_series 3 2 (Some 7) (Fin (1 / 10)) 200 = Inr (Some offset_estimate)"
proof -
  have starts: "draw_starts counting_rows (Some 7) 2
                  = Inr [(Fin 0, Fin 0, Fin 0), (Fin 1, Fin 0, Fin 0)]"
    by (simp add: draw_starts_def counting_rows_def upt_rec numeral_2_eq_2)
  have len: "\<not> length (capacity offset_series) < 3"
    by (simp add: offset_series_def)
  show ?thesis
    using len
    by (simp add: estimate_diagnostics_multistart_def Let_def offset_mask starts offset_fold
          ebind_def sloped_calc' offset_predicted offset_estimate_def del: foldl_Cons)
qed

theorem multistart_best_estimate_witness:
  "estimate_diagnostics_multistart (stalled_fsolve 1) counting_rows picky_minimize sloped_cell
     offset_series 3 2 (Some 7) (Fin (1 / 10)) 200 = Inr (Some offset_estimate) \<and>
   picky_minimize
     (objective (stalled_fsolve 1) sloped_cell (capacity offset_series) (ocv offset_series)
        [True, True, False] 3) (Fin 1, Fin 0, Fin 0) 200 = Inl LibraryError \<and>
   multistart_step picky_minimize
     (objective (stalled_fsolve 1) sloped_cell (capacity offset_series) (ocv offset_series)
        [True, True, False] 3) 200 (Some (Fin 0, Fin 0, Fin 0), Fin (3 / 10), 1)
        (Fin 1, Fin 0, Fin 0) = (Some (Fin 0, Fin 0, Fin 0), Fin (3 / 10), 1) \<and>
   (let S = successful_starts picky_minimize
              (objective (stalled_fsolve 1) sloped_cell (capacity offset_series)
                 (ocv offset_series) (mask_flat offset_estimate) 3)
              200 (map (counting_rows (Some 7)) [0..<nat 2])
    in (0::int) \<le> 2 \<and> starts_tried offset_estimate = 2 \<and>
       starts_success offset_estimate = int (length S) \<and> 1 \<le> starts_success offset_estimate \<and>
       isfinite (rmse_v offset_estimate) \<and> (rmse_v offset_estimate, theta offset_estimate) \<in> set S \<and>
       list_all (\<lambda>r. fle (rmse_v offset_estimate) (fst r)) S)"
proof -
  have raise: "picky_minimize
     (objective (stalled_fsolve 1) sloped_cell (capacity offset_series) (ocv offset_series)
        [True, True, False] 3) (Fin 1, Fin 0, Fin 0) 200 = Inl LibraryError"
    by (simp add: picky_minimize_def)
  from multistart_best_estimate [OF offset_run] raise offset_run show ?thesis
    by blast
qed

end
